theory Spec2Isabelle
  imports Main
begin

section \<open>Data model\<close>

text \<open>
  A coordinate is the two-element array \<open>[x, y]\<close> of the client code, modelled as a pair
  of integers (\<open>cell[0]\<close> is \<open>fst\<close>, \<open>cell[1]\<close> is \<open>snd\<close>).  All numbers the components
  compute are small integers, so JavaScript numbers are modelled as \<open>int\<close>.
\<close>

type_synonym cell = "int \<times> int"

text \<open>
  Ship objects.  Both components read the field \<open>cells\<close>; the placement component builds
  objects \<open>{size, cells, name}\<close>, the game board reads \<open>cells\<close> and the optional flag
  \<open>sunk\<close> (\<open>None\<close> is an absent field).  The field \<open>size\<close> is called \<open>size_ship\<close>, since
  \<open>size\<close> is a constant of HOL.
\<close>

record ship_cells =
  cells :: "cell list"

record placed_ship = ship_cells +
  size_ship :: int
  name :: string

record board_ship = ship_cells +
  sunk :: "bool option"

text \<open>An entry of the table \<open>SHIPS\<close> of \<open>ShipPlacement.js\<close>: \<open>{size, name, color}\<close>.\<close>

record ship_spec =
  size_spec :: int
  name_spec :: string
  color :: string

section \<open>ShipPlacement.js\<close>

definition GRID_SIZE :: int where
  "GRID_SIZE = 5"

definition SHIPS :: "ship_spec list" where
  "SHIPS =
    [\<lparr>size_spec = 4, name_spec = ''Battleship'', color = ''from-blue-500 to-blue-600''\<rparr>,
     \<lparr>size_spec = 3, name_spec = ''Cruiser'', color = ''from-green-500 to-green-600''\<rparr>,
     \<lparr>size_spec = 2, name_spec = ''Destroyer'', color = ''from-purple-500 to-purple-600''\<rparr>]"

subsection \<open>getCellsForShip\<close>

text \<open>
  The \<open>for\<close> loop of \<open>getCellsForShip\<close>: \<open>i\<close> is the loop counter, \<open>acc\<close> the array
  \<open>cells\<close> built so far (\<open>push\<close> appends at the end).
\<close>

function getCellsForShip_loop ::
  "int \<Rightarrow> int \<Rightarrow> int \<Rightarrow> string \<Rightarrow> int \<Rightarrow> cell list \<Rightarrow> cell list" where
  "getCellsForShip_loop startX startY sz orient i acc =
     (if i < sz
      then getCellsForShip_loop startX startY sz orient (i + 1)
             (acc @ [if orient = ''horizontal'' then (startX, startY + i)
                     else (startX + i, startY)])
      else acc)"
  by pat_completeness auto
termination
  by (relation "measure (\<lambda>(startX, startY, sz, orient, i, acc). nat (sz - i))") auto

declare getCellsForShip_loop.simps [simp del]

definition getCellsForShip :: "int \<Rightarrow> int \<Rightarrow> int \<Rightarrow> string \<Rightarrow> cell list" where
  "getCellsForShip startX startY sz orient = getCellsForShip_loop startX startY sz orient 0 []"

subsection \<open>isValidPlacement\<close>

text \<open>
  Each loop of \<open>isValidPlacement\<close> is a function that yields \<open>False\<close> when the loop
  leaves through \<open>return false\<close> and \<open>True\<close> when it runs to its end.
\<close>

fun isValidPlacement_bounds :: "cell list \<Rightarrow> bool" where
  "isValidPlacement_bounds [] = True"
| "isValidPlacement_bounds ((x, y) # rest) =
     (if x < 0 \<or> x \<ge> GRID_SIZE \<or> y < 0 \<or> y \<ge> GRID_SIZE then False
      else isValidPlacement_bounds rest)"

fun isValidPlacement_cell :: "int \<Rightarrow> int \<Rightarrow> cell list \<Rightarrow> bool" where
  "isValidPlacement_cell x y [] = True"
| "isValidPlacement_cell x y ((cx, cy) # rest) =
     (if x = cx \<and> y = cy then False else isValidPlacement_cell x y rest)"

fun isValidPlacement_ship :: "cell list \<Rightarrow> cell list \<Rightarrow> bool" where
  "isValidPlacement_ship [] cs = True"
| "isValidPlacement_ship ((x, y) # rest) cs =
     (if \<not> isValidPlacement_cell x y cs then False else isValidPlacement_ship rest cs)"

fun isValidPlacement_ships :: "placed_ship list \<Rightarrow> cell list \<Rightarrow> bool" where
  "isValidPlacement_ships [] cs = True"
| "isValidPlacement_ships (ship # rest) cs =
     (if \<not> isValidPlacement_ship (cells ship) cs then False
      else isValidPlacement_ships rest cs)"

definition isValidPlacement :: "placed_ship list \<Rightarrow> cell list \<Rightarrow> bool" where
  "isValidPlacement placed cs =
     (if \<not> isValidPlacement_bounds cs then False
      else if \<not> isValidPlacement_ships placed cs then False
      else True)"

subsection \<open>Component state and event handlers\<close>

text \<open>
  The five \<open>useState\<close> cells of the component.  \<open>currentShipIndex\<close> starts at 0 and is
  only ever incremented or reset to 0, so it is a natural number.
\<close>

record placement =
  placedShips :: "placed_ship list"
  currentShipIndex :: nat
  orientation :: string
  hoveredCells :: "cell list"
  isValid :: bool

definition initial_placement :: placement where
  "initial_placement =
     \<lparr>placedShips = [], currentShipIndex = 0, orientation = ''horizontal'',
      hoveredCells = [], isValid = True\<rparr>"

text \<open>Calls of \<open>toast.error\<close> and \<open>toast.success\<close>, recorded with their message.\<close>

datatype toast = Toast_error string | Toast_success string

definition handleCellHover :: "placement \<Rightarrow> int \<Rightarrow> int \<Rightarrow> placement" where
  "handleCellHover s x y =
     (if currentShipIndex s \<ge> length SHIPS then s
      else
        let currentShip = SHIPS ! currentShipIndex s;
            cs = getCellsForShip x y (size_spec currentShip) (orientation s)
        in s\<lparr>hoveredCells := cs, isValid := isValidPlacement (placedShips s) cs\<rparr>)"

text \<open>
  \<open>handleCellClick\<close> of the placement component returns the state after the click and the
  toasts it raised.  \<open>SHIPS ! currentShipIndex\<close> is only read below the guard that the
  index is in range.
\<close>

definition ShipPlacement_handleCellClick ::
  "placement \<Rightarrow> int \<Rightarrow> int \<Rightarrow> placement \<times> toast list" where
  "ShipPlacement_handleCellClick s x y =
     (if currentShipIndex s \<ge> length SHIPS then (s, [])
      else
        let currentShip = SHIPS ! currentShipIndex s;
            cs = getCellsForShip x y (size_spec currentShip) (orientation s)
        in
          if \<not> isValidPlacement (placedShips s) cs
          then (s, [Toast_error ''Invalid placement! Ships cannot overlap or go out of bounds.''])
          else
            let newShip = \<lparr>cells = cs, size_ship = size_spec currentShip,
                           name = name_spec currentShip\<rparr>
            in (s\<lparr>placedShips := placedShips s @ [newShip],
                   currentShipIndex := currentShipIndex s + 1,
                   hoveredCells := []\<rparr>,
                if currentShipIndex s = length SHIPS - 1
                then [Toast_success ''All ships placed! Ready to start game.'']
                else []))"

definition handleReset :: "placement \<Rightarrow> placement" where
  "handleReset s = s\<lparr>placedShips := [], currentShipIndex := 0, hoveredCells := []\<rparr>"

text \<open>
  \<open>handleComplete\<close>: \<open>Inr fleet\<close> is the call \<open>onComplete(fleet)\<close>, \<open>Inl t\<close> the toast
  raised instead.
\<close>

definition handleComplete :: "placement \<Rightarrow> toast + placed_ship list" where
  "handleComplete s =
     (if length (placedShips s) \<noteq> length SHIPS
      then Inl (Toast_error ''Please place all ships before starting'')
      else Inr (placedShips s))"

text \<open>The inline handlers of the rotate button and of \<open>onMouseLeave\<close>.\<close>

definition rotate :: "placement \<Rightarrow> placement" where
  "rotate s =
     s\<lparr>orientation := (if orientation s = ''horizontal'' then ''vertical'' else ''horizontal'')\<rparr>"

definition mouseLeave :: "placement \<Rightarrow> placement" where
  "mouseLeave s = s\<lparr>hoveredCells := []\<rparr>"

text \<open>
  The events of a placement session and the state they lead to.  A cell event carries
  the coordinates its button passes to the handler.
\<close>

datatype placement_event =
  CellHover int int | CellLeave | CellClick int int | Rotate | Reset

fun placement_step :: "placement \<Rightarrow> placement_event \<Rightarrow> placement" where
  "placement_step s (CellHover x y) = handleCellHover s x y"
| "placement_step s CellLeave = mouseLeave s"
| "placement_step s (CellClick x y) = fst (ShipPlacement_handleCellClick s x y)"
| "placement_step s Rotate = rotate s"
| "placement_step s Reset = handleReset s"

definition placement_run :: "placement_event list \<Rightarrow> placement" where
  "placement_run es = foldl placement_step initial_placement es"

subsection \<open>The invariant of a placement session\<close>

text \<open>
  What holds of the component state between events: the index of the current ship is the
  number of placed ships, at most three; the \<open>i\<close>-th placed ship has the \<open>i\<close>-th size of
  \<open>SHIPS\<close> and that many cells; every cell is on the board; ships at different positions
  of the list share no cell.
\<close>

definition placement_inv :: "placement \<Rightarrow> bool" where
  "placement_inv s \<longleftrightarrow>
     currentShipIndex s = length (placedShips s) \<and>
     length (placedShips s) \<le> 3 \<and>
     (\<forall>i < length (placedShips s).
        size_ship (placedShips s ! i) = [4, 3, 2] ! i \<and>
        length (cells (placedShips s ! i)) = nat (size_ship (placedShips s ! i))) \<and>
     (\<forall>ship \<in> set (placedShips s). \<forall>c \<in> set (cells ship).
        0 \<le> fst c \<and> fst c \<le> 4 \<and> 0 \<le> snd c \<and> snd c \<le> 4) \<and>
     (\<forall>i < length (placedShips s). \<forall>j < length (placedShips s).
        i \<noteq> j \<longrightarrow> set (cells (placedShips s ! i)) \<inter> set (cells (placedShips s ! j)) = {})"

section \<open>GameBoard.js\<close>

text \<open>
  A move object as the board reads it: the fields \<open>x\<close>, \<open>y\<close> (here \<open>x_move\<close>, \<open>y_move\<close>)
  and \<open>result\<close>, a string sent by the server.
\<close>

record move =
  x_move :: int
  y_move :: int
  result :: string

definition gridSize :: int where
  "gridSize = 5"

text \<open>
  \<open>getCellState\<close>: \<open>find\<close> and \<open>list_ex\<close> are \<open>Array.prototype.find\<close> and \<open>some\<close>;
  \<open>ship?.sunk || false\<close> is true only for a found ship whose flag is \<open>true\<close>.
\<close>

definition getCellState :: "board_ship list \<Rightarrow> move list \<Rightarrow> bool \<Rightarrow> int \<Rightarrow> int \<Rightarrow> string" where
  "getCellState shs ms isPlayerBoard x y =
     (let mv = find (\<lambda>m. x_move m = x \<and> y_move m = y) ms in
      if isPlayerBoard then
        let hasShip = list_ex (\<lambda>ship. list_ex (\<lambda>c. fst c = x \<and> snd c = y) (cells ship)) shs in
        (case mv of
           Some m \<Rightarrow>
             if hasShip then
               let ship = find (\<lambda>s. list_ex (\<lambda>c. fst c = x \<and> snd c = y) (cells s)) shs;
                   isSunk = (case ship of None \<Rightarrow> False
                             | Some s \<Rightarrow> (case sunk s of None \<Rightarrow> False | Some b \<Rightarrow> b))
               in if isSunk then ''sunk'' else ''hit''
             else ''miss''
         | None \<Rightarrow> if hasShip then ''ship'' else ''empty'')
      else
        (case mv of
           Some m \<Rightarrow>
             if result m = ''miss'' then ''miss''
             else if result m = ''sunk'' then ''sunk'' else ''hit''
         | None \<Rightarrow> ''empty''))"

text \<open>
  \<open>handleCellClick\<close> of the board: \<open>Some r\<close> is the call \<open>onCellClick(x, y)\<close> with what it
  does, \<open>None\<close> a return without calling it.  The prop \<open>onCellClick\<close> may be \<open>null\<close>.
\<close>

definition GameBoard_handleCellClick ::
  "bool \<Rightarrow> (int \<Rightarrow> int \<Rightarrow> 'r) option \<Rightarrow> move list \<Rightarrow> int \<Rightarrow> int \<Rightarrow> 'r option" where
  "GameBoard_handleCellClick disabled onCellClick ms x y =
     (if disabled \<or> Option.is_none onCellClick then None
      else
        let alreadyTargeted = list_ex (\<lambda>m. x_move m = x \<and> y_move m = y) ms in
        if alreadyTargeted then None
        else map_option (\<lambda>f. f x y) onCellClick)"

text \<open>
  The rendered grid: one button per index \<open>0 .. gridSize * gridSize - 1\<close>, each with its
  coordinates, its cell state and what its \<open>onClick\<close> does.
\<close>

definition GameBoard ::
  "board_ship list \<Rightarrow> move list \<Rightarrow> bool \<Rightarrow> (int \<Rightarrow> int \<Rightarrow> 'r) option \<Rightarrow> bool
     \<Rightarrow> (cell \<times> string \<times> 'r option) list" where
  "GameBoard shs ms isPlayerBoard onCellClick disabled =
     map (\<lambda>index.
            let x = index div gridSize;
                y = index mod gridSize;
                cellState = getCellState shs ms isPlayerBoard x y
            in ((x, y), cellState, GameBoard_handleCellClick disabled onCellClick ms x y))
         [0 .. gridSize * gridSize - 1]"

section \<open>The Game page\<close>

text \<open>
  The fields of the fetched game and board state that the page reads when it renders the
  two boards.  \<open>current_turn\<close> may be \<open>null\<close>.
\<close>

record game =
  current_turn :: "string option"
  state :: string

record boardState =
  my_ships :: "board_ship list"
  opponent_moves :: "move list"
  my_moves :: "move list"

text \<open>\<open>handleMove\<close> posts the target to \<open>/games/<gameId>/move\<close>.\<close>

datatype request = Post_move string int int

definition handleMove :: "string \<Rightarrow> int \<Rightarrow> int \<Rightarrow> request" where
  "handleMove gameId x y = Post_move gameId x y"

definition isMyTurn :: "string \<Rightarrow> game \<Rightarrow> bool" where
  "isMyTurn uid g \<longleftrightarrow> current_turn g = Some uid"

definition isWaiting :: "game \<Rightarrow> bool" where
  "isWaiting g \<longleftrightarrow> state g = ''waiting''"

definition isFinished :: "game \<Rightarrow> bool" where
  "isFinished g \<longleftrightarrow> state g = ''finished''"

text \<open>
  The two boards of the page; neither is rendered while the game is waiting.  The
  player's own board has no click handler and is disabled.
\<close>

definition Game_own_board ::
  "game \<Rightarrow> boardState \<Rightarrow> (cell \<times> string \<times> request option) list option" where
  "Game_own_board g bs =
     (if isWaiting g then None
      else Some (GameBoard (my_ships bs) (opponent_moves bs) True None True))"

definition Game_enemy_board ::
  "string \<Rightarrow> string \<Rightarrow> game \<Rightarrow> boardState \<Rightarrow> (cell \<times> string \<times> request option) list option" where
  "Game_enemy_board gameId uid g bs =
     (if isWaiting g then None
      else Some (GameBoard [] (my_moves bs) False (Some (handleMove gameId))
                   (\<not> isMyTurn uid g \<or> isFinished g)))"

section \<open>Properties of placement validation\<close>

lemma isValidPlacement_bounds_iff:
  "isValidPlacement_bounds cs \<longleftrightarrow> (\<forall>c \<in> set cs. 0 \<le> fst c \<and> fst c \<le> 4 \<and> 0 \<le> snd c \<and> snd c \<le> 4)"
  by (induction cs rule: isValidPlacement_bounds.induct) (auto simp: GRID_SIZE_def)

lemma isValidPlacement_cell_iff:
  "isValidPlacement_cell x y cs \<longleftrightarrow> (x, y) \<notin> set cs"
  by (induction x y cs rule: isValidPlacement_cell.induct) auto

lemma isValidPlacement_ship_iff:
  "isValidPlacement_ship scs cs \<longleftrightarrow> set scs \<inter> set cs = {}"
  by (induction scs cs rule: isValidPlacement_ship.induct)
     (auto simp: isValidPlacement_cell_iff)

lemma isValidPlacement_ships_iff:
  "isValidPlacement_ships placed cs \<longleftrightarrow> (\<forall>ship \<in> set placed. set (cells ship) \<inter> set cs = {})"
  by (induction placed cs rule: isValidPlacement_ships.induct)
     (auto simp: isValidPlacement_ship_iff)

lemma isValidPlacement_iff:
  "isValidPlacement placed cs \<longleftrightarrow>
     (\<forall>c \<in> set cs. 0 \<le> fst c \<and> fst c \<le> 4 \<and> 0 \<le> snd c \<and> snd c \<le> 4) \<and>
     (\<forall>ship \<in> set placed. set (cells ship) \<inter> set cs = {})"
  unfolding isValidPlacement_def
  by (simp add: isValidPlacement_bounds_iff isValidPlacement_ships_iff)


text \<open>
  C1: \<open>isValidPlacement\<close> accepts a candidate cell list exactly when every cell lies in
  \<open>[0,4] \<times> [0,4]\<close> and no cell is a cell of an already placed ship; otherwise it rejects.
\<close>

theorem isValidPlacement_accepts_iff:
  "isValidPlacement placed cs \<longleftrightarrow>
     (\<forall>(x, y) \<in> set cs. 0 \<le> x \<and> x \<le> 4 \<and> 0 \<le> y \<and> y \<le> 4) \<and>
     (\<forall>ship \<in> set placed. set (cells ship) \<inter> set cs = {})"
  by (simp add: isValidPlacement_iff case_prod_beta)

theorem isValidPlacement_accepts_iff_witness:
  "isValidPlacement
     [\<lparr>cells = [(0, 0), (0, 1), (0, 2), (0, 3)], size_ship = 4, name = ''Battleship''\<rparr>]
     [(2, 0), (2, 1), (2, 2)] \<and>
   \<not> isValidPlacement
     [\<lparr>cells = [(0, 0), (0, 1), (0, 2), (0, 3)], size_ship = 4, name = ''Battleship''\<rparr>]
     [(0, 1), (0, 2), (0, 3)] \<and>
   \<not> isValidPlacement [] [(0, 3), (0, 4), (0, 5)]"
  using
    isValidPlacement_accepts_iff [of
      "[\<lparr>cells = [(0, 0), (0, 1), (0, 2), (0, 3)], size_ship = 4, name = ''Battleship''\<rparr>]"
      "[(2, 0), (2, 1), (2, 2)]"]
    isValidPlacement_accepts_iff [of
      "[\<lparr>cells = [(0, 0), (0, 1), (0, 2), (0, 3)], size_ship = 4, name = ''Battleship''\<rparr>]"
      "[(0, 1), (0, 2), (0, 3)]"]
    isValidPlacement_accepts_iff [of "[]" "[(0, 3), (0, 4), (0, 5)]"]
  by simp

section \<open>Properties of cell generation\<close>

lemma getCellsForShip_loop_eq:
  "getCellsForShip_loop startX startY sz orient i acc =
     acc @ map (\<lambda>k. if orient = ''horizontal'' then (startX, startY + k) else (startX + k, startY))
             [i .. sz - 1]"
proof (induction startX startY sz orient i acc rule: getCellsForShip_loop.induct)
  case (1 startX startY sz orient i acc)
  show ?case
  proof (cases "i < sz")
    case True
    then have "[i .. sz - 1] = i # [i + 1 .. sz - 1]"
      by (simp add: upto_rec1)
    with True "1.IH" show ?thesis
      by (subst getCellsForShip_loop.simps) simp
  next
    case False
    then show ?thesis
      by (subst getCellsForShip_loop.simps) simp
  qed
qed

lemma getCellsForShip_eq:
  "getCellsForShip startX startY sz orient =
     map (\<lambda>k. if orient = ''horizontal'' then (startX, startY + k) else (startX + k, startY))
       [0 .. sz - 1]"
  by (simp add: getCellsForShip_def getCellsForShip_loop_eq)

lemma length_getCellsForShip: "length (getCellsForShip startX startY sz orient) = nat sz"
  by (simp add: getCellsForShip_eq)

lemma nth_getCellsForShip:
  "k < nat sz \<Longrightarrow>
   getCellsForShip startX startY sz orient ! k =
     (if orient = ''horizontal'' then (startX, startY + int k) else (startX + int k, startY))"
  by (simp add: getCellsForShip_eq)

lemma distinct_getCellsForShip: "distinct (getCellsForShip startX startY sz orient)"
  by (auto simp: getCellsForShip_eq distinct_map inj_on_def)

text \<open>
  C5: for a size \<open>s \<ge> 1\<close> and either orientation, \<open>getCellsForShip\<close> returns exactly \<open>s\<close>
  pairwise distinct cells; the \<open>k\<close>-th cell is the start cell moved \<open>k\<close> steps along the
  orientation (along \<open>y\<close> when horizontal, along \<open>x\<close> when vertical), so the run starts at
  the start cell and has no gaps.
\<close>

theorem getCellsForShip_run:
  assumes "1 \<le> s" and "orient = ''horizontal'' \<or> orient = ''vertical''"
  shows "length (getCellsForShip x y s orient) = nat s \<and>
         distinct (getCellsForShip x y s orient) \<and>
         hd (getCellsForShip x y s orient) = (x, y) \<and>
         (\<forall>k < nat s. getCellsForShip x y s orient ! k =
            (if orient = ''horizontal'' then (x, y + int k) else (x + int k, y)))"
proof -
  from assms(1) have "getCellsForShip x y s orient \<noteq> []"
    by (simp add: getCellsForShip_eq)
  then have "hd (getCellsForShip x y s orient) = getCellsForShip x y s orient ! 0"
    by (simp add: hd_conv_nth)
  with assms(1) have "hd (getCellsForShip x y s orient) = (x, y)"
    by (simp add: nth_getCellsForShip)
  then show ?thesis
    by (simp add: length_getCellsForShip distinct_getCellsForShip nth_getCellsForShip)
qed

theorem getCellsForShip_run_witness:
  "length (getCellsForShip 1 2 3 ''horizontal'') = 3 \<and>
   hd (getCellsForShip 1 2 3 ''horizontal'') = (1, 2) \<and>
   getCellsForShip 1 2 3 ''horizontal'' ! 2 = (1, 4) \<and>
   getCellsForShip 1 2 3 ''vertical'' ! 2 = (3, 2)"
proof -
  have h: "length (getCellsForShip 1 2 3 ''horizontal'') = nat 3 \<and>
         distinct (getCellsForShip 1 2 3 ''horizontal'') \<and>
         hd (getCellsForShip 1 2 3 ''horizontal'') = (1, 2) \<and>
         (\<forall>k < nat 3. getCellsForShip 1 2 3 ''horizontal'' ! k =
            (if ''horizontal'' = ''horizontal'' then (1, 2 + int k) else (1 + int k, 2)))"
    by (rule getCellsForShip_run) simp_all
  have v: "length (getCellsForShip 1 2 3 ''vertical'') = nat 3 \<and>
         distinct (getCellsForShip 1 2 3 ''vertical'') \<and>
         hd (getCellsForShip 1 2 3 ''vertical'') = (1, 2) \<and>
         (\<forall>k < nat 3. getCellsForShip 1 2 3 ''vertical'' ! k =
            (if ''vertical'' = ''horizontal'' then (1, 2 + int k) else (1 + int k, 2)))"
    by (rule getCellsForShip_run) simp_all
  from h have "getCellsForShip 1 2 3 ''horizontal'' ! 2 = (1, 4)"
    by simp
  moreover from v have "getCellsForShip 1 2 3 ''vertical'' ! 2 = (3, 2)"
    by simp
  ultimately show ?thesis using h by simp
qed

section \<open>Properties of the game board\<close>

lemma find_move_None_iff:
  "find (\<lambda>m. x_move m = x \<and> y_move m = y) ms = None \<longleftrightarrow>
     \<not> (\<exists>m \<in> set ms. x_move m = x \<and> y_move m = y)"
  by (auto simp: find_None_iff)

lemma find_move_unique:
  assumes "m \<in> set ms" and "x_move m = x \<and> y_move m = y"
    and "\<forall>m' \<in> set ms. x_move m' = x \<and> y_move m' = y \<longrightarrow> m' = m"
  shows "find (\<lambda>m. x_move m = x \<and> y_move m = y) ms = Some m"
proof (cases "find (\<lambda>m. x_move m = x \<and> y_move m = y) ms")
  case None
  with assms(1,2) show ?thesis
    by (auto simp: find_None_iff)
next
  case (Some m')
  then have "m' \<in> set ms" and "x_move m' = x \<and> y_move m' = y"
    by (auto simp: find_Some_iff)
  with assms(3) Some show ?thesis
    by auto
qed

lemma getCellState_enemy:
  "getCellState shs ms False x y =
     (case find (\<lambda>m. x_move m = x \<and> y_move m = y) ms of
        None \<Rightarrow> ''empty''
      | Some m \<Rightarrow> if result m = ''miss'' then ''miss''
                  else if result m = ''sunk'' then ''sunk'' else ''hit'')"
  by (simp add: getCellState_def)

text \<open>
  C2: on the opponent's board (\<open>isPlayerBoard\<close> false) the state of a cell does not depend
  on the ship list; a cell without a move is \<open>empty\<close>; a cell with a move shows the result
  recorded in the move found there, when that result is one of \<open>hit\<close>, \<open>miss\<close>, \<open>sunk\<close> (the
  only move at that cell, when the move list has one move per cell).  The Game page renders
  the enemy board from the viewer's own moves alone.
\<close>

theorem getCellState_enemy_hides_fleet:
  "getCellState shs1 ms False x y = getCellState shs2 ms False x y \<and>
   ((\<forall>m \<in> set ms. \<not> (x_move m = x \<and> y_move m = y)) \<longrightarrow>
      getCellState shs1 ms False x y = ''empty'') \<and>
   (\<forall>m. find (\<lambda>m. x_move m = x \<and> y_move m = y) ms = Some m \<and>
        result m \<in> {''hit'', ''miss'', ''sunk''} \<longrightarrow>
      getCellState shs1 ms False x y = result m) \<and>
   (\<forall>m \<in> set ms. x_move m = x \<and> y_move m = y \<and>
        (\<forall>m' \<in> set ms. x_move m' = x \<and> y_move m' = y \<longrightarrow> m' = m) \<and>
        result m \<in> {''hit'', ''miss'', ''sunk''} \<longrightarrow>
      getCellState shs1 ms False x y = result m) \<and>
   (\<forall>board. Game_enemy_board gameId uid g bs = Some board \<longrightarrow>
      map (\<lambda>b. fst (snd b)) board =
      map (\<lambda>b. getCellState shs1 (my_moves bs) False (fst (fst b)) (snd (fst b))) board)"
proof -
  have indep: "getCellState shs1 ms False x y = getCellState shs2 ms False x y"
    by (simp add: getCellState_enemy)
  have empty: "(\<forall>m \<in> set ms. \<not> (x_move m = x \<and> y_move m = y)) \<longrightarrow>
      getCellState shs1 ms False x y = ''empty''"
    using find_move_None_iff [of x y ms] by (auto simp: getCellState_enemy)
  have found: "getCellState shs1 ms False x y = result m"
    if "find (\<lambda>m. x_move m = x \<and> y_move m = y) ms = Some m"
      and "result m \<in> {''hit'', ''miss'', ''sunk''}" for m
    using that by (auto simp: getCellState_enemy)
  have only: "getCellState shs1 ms False x y = result m"
    if "m \<in> set ms" and "x_move m = x \<and> y_move m = y"
      and "\<forall>m' \<in> set ms. x_move m' = x \<and> y_move m' = y \<longrightarrow> m' = m"
      and "result m \<in> {''hit'', ''miss'', ''sunk''}" for m
    using found [OF find_move_unique [OF that(1,2,3)] that(4)] .
  have page: "map (\<lambda>b. fst (snd b)) board =
      map (\<lambda>b. getCellState shs1 (my_moves bs) False (fst (fst b)) (snd (fst b))) board"
    if "Game_enemy_board gameId uid g bs = Some board" for board
    using that
    by (auto simp: Game_enemy_board_def GameBoard_def Let_def getCellState_enemy
        split: if_splits)
  from indep empty found only page show ?thesis
    by blast
qed

theorem getCellState_enemy_hides_fleet_witness:
  "getCellState [\<lparr>cells = [(0, 0), (0, 1)], sunk = Some False\<rparr>]
     [\<lparr>x_move = 0, y_move = 0, result = ''hit''\<rparr>] False 0 1 =
   getCellState [] [\<lparr>x_move = 0, y_move = 0, result = ''hit''\<rparr>] False 0 1 \<and>
   getCellState [\<lparr>cells = [(0, 0), (0, 1)], sunk = Some False\<rparr>]
     [\<lparr>x_move = 0, y_move = 0, result = ''hit''\<rparr>] False 0 1 = ''empty'' \<and>
   getCellState [\<lparr>cells = [(0, 0), (0, 1)], sunk = Some False\<rparr>]
     [\<lparr>x_move = 0, y_move = 0, result = ''hit''\<rparr>] False 0 0 = ''hit'' \<and>
   getCellState [] [\<lparr>x_move = 3, y_move = 3, result = ''miss''\<rparr>] False 3 3 = ''miss''"
proof -
  let ?ships = "[\<lparr>cells = [(0, 0), (0, 1)], sunk = Some False\<rparr>]"
  let ?hit = "\<lparr>x_move = 0, y_move = 0, result = ''hit''\<rparr>"
  let ?miss = "\<lparr>x_move = 3, y_move = 3, result = ''miss''\<rparr>"
  let ?g = "\<lparr>current_turn = None, state = ''waiting''\<rparr>"
  let ?bs = "\<lparr>my_ships = [], opponent_moves = [], my_moves = []\<rparr>"
  note a = getCellState_enemy_hides_fleet [of ?ships "[?hit]" 0 1 "[]" "''g''" "''u''" ?g ?bs]
  note b = getCellState_enemy_hides_fleet [of ?ships "[?hit]" 0 0 "[]" "''g''" "''u''" ?g ?bs]
  note c = getCellState_enemy_hides_fleet [of "[]" "[?miss]" 3 3 "[]" "''g''" "''u''" ?g ?bs]
  from a have 1: "getCellState ?ships [?hit] False 0 1 = getCellState [] [?hit] False 0 1"
    by (rule conjunct1)
  from a have "(\<forall>m \<in> set [?hit]. \<not> (x_move m = 0 \<and> y_move m = 1)) \<longrightarrow>
      getCellState ?ships [?hit] False 0 1 = ''empty''"
    by (elim conjE)
  then have 2: "getCellState ?ships [?hit] False 0 1 = ''empty''"
    by simp
  from b have "\<forall>m \<in> set [?hit]. x_move m = 0 \<and> y_move m = 0 \<and>
        (\<forall>m' \<in> set [?hit]. x_move m' = 0 \<and> y_move m' = 0 \<longrightarrow> m' = m) \<and>
        result m \<in> {''hit'', ''miss'', ''sunk''} \<longrightarrow>
      getCellState ?ships [?hit] False 0 0 = result m"
    by (elim conjE)
  then have 3: "getCellState ?ships [?hit] False 0 0 = ''hit''"
    by simp
  from c have "\<forall>m \<in> set [?miss]. x_move m = 3 \<and> y_move m = 3 \<and>
        (\<forall>m' \<in> set [?miss]. x_move m' = 3 \<and> y_move m' = 3 \<longrightarrow> m' = m) \<and>
        result m \<in> {''hit'', ''miss'', ''sunk''} \<longrightarrow>
      getCellState [] [?miss] False 3 3 = result m"
    by (elim conjE)
  then have 4: "getCellState [] [?miss] False 3 3 = ''miss''"
    by simp
  from 1 2 3 4 show ?thesis
    by (intro conjI)
qed

lemma covers_iff: "list_ex (\<lambda>c. fst c = x \<and> snd c = y) cs \<longleftrightarrow> (x, y) \<in> set cs"
  by (force simp: list_ex_iff)

lemma getCellState_own:
  "getCellState shs ms True x y =
     (if \<exists>m \<in> set ms. x_move m = x \<and> y_move m = y
      then if \<exists>ship \<in> set shs. (x, y) \<in> set (cells ship)
           then if (case find (\<lambda>s. (x, y) \<in> set (cells s)) shs of
                      None \<Rightarrow> False | Some s \<Rightarrow> sunk s = Some True)
                then ''sunk'' else ''hit''
           else ''miss''
      else if \<exists>ship \<in> set shs. (x, y) \<in> set (cells ship) then ''ship'' else ''empty'')"
proof (cases "find (\<lambda>m. x_move m = x \<and> y_move m = y) ms")
  case None
  then have "\<not> (\<exists>m \<in> set ms. x_move m = x \<and> y_move m = y)"
    by (simp add: find_move_None_iff)
  with None show ?thesis
    by (simp add: getCellState_def covers_iff list_ex_iff)
next
  case (Some m)
  then have "\<exists>m \<in> set ms. x_move m = x \<and> y_move m = y"
    using find_move_None_iff [of x y ms] by simp
  with Some show ?thesis
    by (auto simp: getCellState_def covers_iff list_ex_iff split: option.splits)
qed

text \<open>
  C6: on the player's own board (\<open>isPlayerBoard\<close> true) a moved cell that no ship covers
  is \<open>miss\<close>; a moved cell that a ship covers is \<open>hit\<close> or \<open>sunk\<close>, and \<open>sunk\<close> exactly
  when the flag \<open>sunk\<close> is set on the struck ship (the first ship of the list covering the
  cell); a ship cell without a move is \<open>ship\<close>; any other cell is \<open>empty\<close>.  The Game
  page renders the own board from the viewer's ships and the opponent's moves.
\<close>

theorem getCellState_own_board:
  "((\<exists>m \<in> set ms. x_move m = x \<and> y_move m = y) \<and>
      \<not> (\<exists>ship \<in> set shs. (x, y) \<in> set (cells ship)) \<longrightarrow>
        getCellState shs ms True x y = ''miss'') \<and>
   ((\<exists>m \<in> set ms. x_move m = x \<and> y_move m = y) \<and>
      (\<exists>ship \<in> set shs. (x, y) \<in> set (cells ship)) \<longrightarrow>
        (getCellState shs ms True x y = ''hit'' \<or> getCellState shs ms True x y = ''sunk'') \<and>
        (getCellState shs ms True x y = ''sunk'' \<longleftrightarrow>
           (\<exists>s. find (\<lambda>s. (x, y) \<in> set (cells s)) shs = Some s \<and> sunk s = Some True))) \<and>
   (\<not> (\<exists>m \<in> set ms. x_move m = x \<and> y_move m = y) \<and>
      (\<exists>ship \<in> set shs. (x, y) \<in> set (cells ship)) \<longrightarrow>
        getCellState shs ms True x y = ''ship'') \<and>
   (\<not> (\<exists>m \<in> set ms. x_move m = x \<and> y_move m = y) \<and>
      \<not> (\<exists>ship \<in> set shs. (x, y) \<in> set (cells ship)) \<longrightarrow>
        getCellState shs ms True x y = ''empty'') \<and>
   (\<forall>board. Game_own_board g bs = Some board \<longrightarrow>
      map (\<lambda>b. fst (snd b)) board =
      map (\<lambda>b. getCellState (my_ships bs) (opponent_moves bs) True (fst (fst b)) (snd (fst b)))
        board)"
proof -
  have page: "map (\<lambda>b. fst (snd b)) board =
      map (\<lambda>b. getCellState (my_ships bs) (opponent_moves bs) True (fst (fst b)) (snd (fst b)))
        board"
    if "Game_own_board g bs = Some board" for board
    using that
    by (auto simp: Game_own_board_def GameBoard_def Let_def split: if_splits)
  have cells: "((\<exists>m \<in> set ms. x_move m = x \<and> y_move m = y) \<and>
      \<not> (\<exists>ship \<in> set shs. (x, y) \<in> set (cells ship)) \<longrightarrow>
        getCellState shs ms True x y = ''miss'') \<and>
   ((\<exists>m \<in> set ms. x_move m = x \<and> y_move m = y) \<and>
      (\<exists>ship \<in> set shs. (x, y) \<in> set (cells ship)) \<longrightarrow>
        (getCellState shs ms True x y = ''hit'' \<or> getCellState shs ms True x y = ''sunk'') \<and>
        (getCellState shs ms True x y = ''sunk'' \<longleftrightarrow>
           (\<exists>s. find (\<lambda>s. (x, y) \<in> set (cells s)) shs = Some s \<and> sunk s = Some True))) \<and>
   (\<not> (\<exists>m \<in> set ms. x_move m = x \<and> y_move m = y) \<and>
      (\<exists>ship \<in> set shs. (x, y) \<in> set (cells ship)) \<longrightarrow>
        getCellState shs ms True x y = ''ship'') \<and>
   (\<not> (\<exists>m \<in> set ms. x_move m = x \<and> y_move m = y) \<and>
      \<not> (\<exists>ship \<in> set shs. (x, y) \<in> set (cells ship)) \<longrightarrow>
        getCellState shs ms True x y = ''empty'')"
    unfolding getCellState_own
    by (cases "find (\<lambda>s. (x, y) \<in> set (cells s)) shs") simp_all
  from cells page show ?thesis
    by blast
qed

theorem getCellState_own_board_witness:
  "getCellState
     [\<lparr>cells = [(0, 0), (0, 1)], sunk = Some True\<rparr>, \<lparr>cells = [(2, 2), (3, 2)], sunk = None\<rparr>]
     [\<lparr>x_move = 0, y_move = 0, result = ''sunk''\<rparr>, \<lparr>x_move = 2, y_move = 2, result = ''hit''\<rparr>,
      \<lparr>x_move = 4, y_move = 4, result = ''miss''\<rparr>] True 0 0 = ''sunk'' \<and>
   getCellState
     [\<lparr>cells = [(0, 0), (0, 1)], sunk = Some True\<rparr>, \<lparr>cells = [(2, 2), (3, 2)], sunk = None\<rparr>]
     [\<lparr>x_move = 0, y_move = 0, result = ''sunk''\<rparr>, \<lparr>x_move = 2, y_move = 2, result = ''hit''\<rparr>,
      \<lparr>x_move = 4, y_move = 4, result = ''miss''\<rparr>] True 2 2 = ''hit'' \<and>
   getCellState
     [\<lparr>cells = [(0, 0), (0, 1)], sunk = Some True\<rparr>, \<lparr>cells = [(2, 2), (3, 2)], sunk = None\<rparr>]
     [\<lparr>x_move = 0, y_move = 0, result = ''sunk''\<rparr>, \<lparr>x_move = 2, y_move = 2, result = ''hit''\<rparr>,
      \<lparr>x_move = 4, y_move = 4, result = ''miss''\<rparr>] True 4 4 = ''miss'' \<and>
   getCellState
     [\<lparr>cells = [(0, 0), (0, 1)], sunk = Some True\<rparr>, \<lparr>cells = [(2, 2), (3, 2)], sunk = None\<rparr>]
     [\<lparr>x_move = 0, y_move = 0, result = ''sunk''\<rparr>, \<lparr>x_move = 2, y_move = 2, result = ''hit''\<rparr>,
      \<lparr>x_move = 4, y_move = 4, result = ''miss''\<rparr>] True 3 2 = ''ship'' \<and>
   getCellState
     [\<lparr>cells = [(0, 0), (0, 1)], sunk = Some True\<rparr>, \<lparr>cells = [(2, 2), (3, 2)], sunk = None\<rparr>]
     [\<lparr>x_move = 0, y_move = 0, result = ''sunk''\<rparr>, \<lparr>x_move = 2, y_move = 2, result = ''hit''\<rparr>,
      \<lparr>x_move = 4, y_move = 4, result = ''miss''\<rparr>] True 1 1 = ''empty''"
proof -
  let ?shs = "[\<lparr>cells = [(0, 0), (0, 1)], sunk = Some True\<rparr>,
               \<lparr>cells = [(2, 2), (3, 2)], sunk = None\<rparr>]"
  let ?ms = "[\<lparr>x_move = 0, y_move = 0, result = ''sunk''\<rparr>,
              \<lparr>x_move = 2, y_move = 2, result = ''hit''\<rparr>,
              \<lparr>x_move = 4, y_move = 4, result = ''miss''\<rparr>]"
  let ?g = "\<lparr>current_turn = None, state = ''waiting''\<rparr>"
  let ?bs = "\<lparr>my_ships = [], opponent_moves = [], my_moves = []\<rparr>"
  have 1: "getCellState ?shs ?ms True 0 0 = ''sunk''"
    using getCellState_own_board [of ?ms 0 0 ?shs ?g ?bs] by simp
  have 2: "getCellState ?shs ?ms True 2 2 = ''hit''"
    using getCellState_own_board [of ?ms 2 2 ?shs ?g ?bs] by auto
  have 3: "getCellState ?shs ?ms True 4 4 = ''miss''"
    using getCellState_own_board [of ?ms 4 4 ?shs ?g ?bs] by simp
  have 4: "getCellState ?shs ?ms True 3 2 = ''ship''"
    using getCellState_own_board [of ?ms 3 2 ?shs ?g ?bs] by simp
  have 5: "getCellState ?shs ?ms True 1 1 = ''empty''"
    using getCellState_own_board [of ?ms 1 1 ?shs ?g ?bs] by simp
  from 1 2 3 4 5 show ?thesis
    by (intro conjI)
qed

section \<open>Properties of move submission\<close>

lemma GameBoard_handleCellClick_disabled:
  "GameBoard_handleCellClick True onCellClick ms x y = None"
  by (simp add: GameBoard_handleCellClick_def)

lemma GameBoard_handleCellClick_Some:
  "GameBoard_handleCellClick disabled onCellClick ms x y = Some r \<Longrightarrow>
     \<not> disabled \<and> (\<exists>f. onCellClick = Some f \<and> r = f x y) \<and>
     \<not> (\<exists>m \<in> set ms. x_move m = x \<and> y_move m = y)"
  by (cases onCellClick)
     (auto simp: GameBoard_handleCellClick_def Let_def list_ex_iff split: if_splits)

lemma GameBoard_cells:
  "b \<in> set (GameBoard shs ms isPlayerBoard onCellClick disabled) \<Longrightarrow>
     \<exists>index. 0 \<le> index \<and> index \<le> 24 \<and>
       b = ((index div 5, index mod 5),
            getCellState shs ms isPlayerBoard (index div 5) (index mod 5),
            GameBoard_handleCellClick disabled onCellClick ms (index div 5) (index mod 5))"
  by (auto simp: GameBoard_def Let_def gridSize_def)

lemma index_in_grid:
  fixes index :: int
  assumes "0 \<le> index" and "index \<le> 24"
  shows "0 \<le> index div 5 \<and> index div 5 \<le> 4 \<and> 0 \<le> index mod 5 \<and> index mod 5 \<le> 4"
  using assms by presburger

text \<open>
  C3: when the move list already holds a move at \<open>(x, y)\<close>, \<open>handleCellClick(x, y)\<close> of
  the board returns without calling \<open>onCellClick\<close>, whatever the other props are.
\<close>

theorem handleCellClick_already_targeted:
  assumes "\<exists>m \<in> set ms. x_move m = x \<and> y_move m = y"
  shows "GameBoard_handleCellClick disabled onCellClick ms x y = None"
  using assms
  by (auto simp: GameBoard_handleCellClick_def Let_def list_ex_iff)

theorem handleCellClick_already_targeted_witness:
  "GameBoard_handleCellClick False (Some (handleMove ''g1''))
     [\<lparr>x_move = 1, y_move = 2, result = ''hit''\<rparr>] 1 2 = None \<and>
   GameBoard_handleCellClick False (Some (handleMove ''g1''))
     [\<lparr>x_move = 1, y_move = 2, result = ''hit''\<rparr>] 1 3 = Some (Post_move ''g1'' 1 3)"
proof -
  have "\<exists>m \<in> set [\<lparr>x_move = 1, y_move = 2, result = ''hit''\<rparr>]. x_move m = 1 \<and> y_move m = 2"
    by simp
  then have "GameBoard_handleCellClick False (Some (handleMove ''g1''))
     [\<lparr>x_move = 1, y_move = 2, result = ''hit''\<rparr>] 1 2 = None"
    by (rule handleCellClick_already_targeted)
  moreover have "GameBoard_handleCellClick False (Some (handleMove ''g1''))
     [\<lparr>x_move = 1, y_move = 2, result = ''hit''\<rparr>] 1 3 = Some (Post_move ''g1'' 1 3)"
    by (simp add: GameBoard_handleCellClick_def handleMove_def)
  ultimately show ?thesis
    by (intro conjI)
qed

text \<open>
  C4: when \<open>game.current_turn\<close> is not the viewer's id, or \<open>game.state\<close> is \<open>finished\<close>, the
  enemy board is rendered disabled: its \<open>handleCellClick\<close> returns without calling
  \<open>handleMove\<close> for every cell, and no button of the rendered enemy board submits a move.
\<close>

theorem no_move_out_of_turn:
  assumes "current_turn g \<noteq> Some uid \<or> state g = ''finished''"
  shows "GameBoard_handleCellClick (\<not> isMyTurn uid g \<or> isFinished g)
           (Some (handleMove gameId)) ms x y = None \<and>
         (\<forall>board. Game_enemy_board gameId uid g bs = Some board \<longrightarrow>
            (\<forall>b \<in> set board. snd (snd b) = None))"
proof -
  from assms have "\<not> isMyTurn uid g \<or> isFinished g"
    by (auto simp: isMyTurn_def isFinished_def)
  then have dis: "(isMyTurn uid g \<longrightarrow> isFinished g) = True"
    by auto
  have "snd (snd b) = None"
    if "Game_enemy_board gameId uid g bs = Some board" and "b \<in> set board" for board b
  proof -
    from that(1) have "board = GameBoard [] (my_moves bs) False (Some (handleMove gameId)) True"
      by (simp add: Game_enemy_board_def dis split: if_splits)
    with that(2) show ?thesis
      by (auto dest!: GameBoard_cells simp: GameBoard_handleCellClick_disabled)
  qed
  then show ?thesis
    by (simp add: dis GameBoard_handleCellClick_disabled)
qed

theorem no_move_out_of_turn_witness:
  "GameBoard_handleCellClick
     (\<not> isMyTurn ''alice'' \<lparr>current_turn = Some ''bob'', state = ''in_progress''\<rparr> \<or>
      isFinished \<lparr>current_turn = Some ''bob'', state = ''in_progress''\<rparr>)
     (Some (handleMove ''g1'')) [] 0 0 = None \<and>
   GameBoard_handleCellClick
     (\<not> isMyTurn ''alice'' \<lparr>current_turn = Some ''alice'', state = ''finished''\<rparr> \<or>
      isFinished \<lparr>current_turn = Some ''alice'', state = ''finished''\<rparr>)
     (Some (handleMove ''g1'')) [] 0 0 = None \<and>
   GameBoard_handleCellClick
     (\<not> isMyTurn ''alice'' \<lparr>current_turn = Some ''alice'', state = ''in_progress''\<rparr> \<or>
      isFinished \<lparr>current_turn = Some ''alice'', state = ''in_progress''\<rparr>)
     (Some (handleMove ''g1'')) [] 0 0 = Some (Post_move ''g1'' 0 0)"
proof -
  let ?bs = "\<lparr>my_ships = [], opponent_moves = [], my_moves = []\<rparr>"
  have a: "current_turn \<lparr>current_turn = Some ''bob'', state = ''in_progress''\<rparr> \<noteq> Some ''alice'' \<or>
           state \<lparr>current_turn = Some ''bob'', state = ''in_progress''\<rparr> = ''finished''"
    by simp
  have b: "current_turn \<lparr>current_turn = Some ''alice'', state = ''finished''\<rparr> \<noteq> Some ''alice'' \<or>
           state \<lparr>current_turn = Some ''alice'', state = ''finished''\<rparr> = ''finished''"
    by simp
  note 1 = no_move_out_of_turn [OF a, of "''g1''" "[]" 0 0 ?bs, THEN conjunct1]
  note 2 = no_move_out_of_turn [OF b, of "''g1''" "[]" 0 0 ?bs, THEN conjunct1]
  have 3: "GameBoard_handleCellClick
     (\<not> isMyTurn ''alice'' \<lparr>current_turn = Some ''alice'', state = ''in_progress''\<rparr> \<or>
      isFinished \<lparr>current_turn = Some ''alice'', state = ''in_progress''\<rparr>)
     (Some (handleMove ''g1'')) [] 0 0 = Some (Post_move ''g1'' 0 0)"
    by (simp add: GameBoard_handleCellClick_def handleMove_def isMyTurn_def isFinished_def)
  from 1 2 3 show ?thesis
    by (intro conjI)
qed

text \<open>
  C9: the board renders one button per index \<open>0 .. 24\<close>, with the coordinates
  \<open>(index div 5, index mod 5)\<close>; every button's coordinates lie in \<open>[0,4] \<times> [0,4]\<close>, and
  every move a button of the enemy board submits targets that button's own coordinates.
\<close>

theorem GameBoard_targets_in_bounds:
  "map fst (GameBoard shs ms isPlayerBoard onCellClick disabled) =
     map (\<lambda>index. (index div 5, index mod 5)) [0 .. 24] \<and>
   (\<forall>((x, y), cellState, click) \<in> set (GameBoard shs ms isPlayerBoard onCellClick disabled).
      0 \<le> x \<and> x \<le> 4 \<and> 0 \<le> y \<and> y \<le> 4 \<and>
      click = GameBoard_handleCellClick disabled onCellClick ms x y) \<and>
   (\<forall>board. Game_enemy_board gameId uid g bs = Some board \<longrightarrow>
      (\<forall>((x, y), cellState, click) \<in> set board. \<forall>r. click = Some r \<longrightarrow>
         r = Post_move gameId x y \<and> 0 \<le> x \<and> x \<le> 4 \<and> 0 \<le> y \<and> y \<le> 4))"
proof -
  have coords: "map fst (GameBoard shs ms isPlayerBoard onCellClick disabled) =
     map (\<lambda>index. (index div 5, index mod 5)) [0 .. 24]"
    by (simp add: GameBoard_def Let_def gridSize_def comp_def)
  have buttons: "0 \<le> x \<and> x \<le> 4 \<and> 0 \<le> y \<and> y \<le> 4 \<and>
      click = GameBoard_handleCellClick disabled onCellClick ms x y"
    if "((x, y), cellState, click) \<in> set (GameBoard shs ms isPlayerBoard onCellClick disabled)"
    for x y cellState click
    using GameBoard_cells [OF that] index_in_grid by auto
  have page: "r = Post_move gameId x y \<and> 0 \<le> x \<and> x \<le> 4 \<and> 0 \<le> y \<and> y \<le> 4"
    if "Game_enemy_board gameId uid g bs = Some board"
      and "((x, y), cellState, click) \<in> set board" and "click = Some r"
    for board x y cellState click r
  proof -
    from that(1) have "board = GameBoard [] (my_moves bs) False (Some (handleMove gameId))
        (\<not> isMyTurn uid g \<or> isFinished g)"
      by (simp add: Game_enemy_board_def split: if_splits)
    with that(2) obtain index where index: "0 \<le> index" "index \<le> 24"
      and "x = index div 5" "y = index mod 5"
      and "click = GameBoard_handleCellClick (\<not> isMyTurn uid g \<or> isFinished g)
             (Some (handleMove gameId)) (my_moves bs) x y"
      by (auto dest!: GameBoard_cells)
    with that(3) index_in_grid [OF index] show ?thesis
      by (auto dest!: GameBoard_handleCellClick_Some simp: handleMove_def)
  qed
  from coords buttons page show ?thesis
    by blast
qed

theorem GameBoard_targets_in_bounds_witness:
  "map fst (GameBoard [] [] False (Some (handleMove ''g1'')) False) =
     [(0, 0), (0, 1), (0, 2), (0, 3), (0, 4),
      (1, 0), (1, 1), (1, 2), (1, 3), (1, 4),
      (2, 0), (2, 1), (2, 2), (2, 3), (2, 4),
      (3, 0), (3, 1), (3, 2), (3, 3), (3, 4),
      (4, 0), (4, 1), (4, 2), (4, 3), (4, 4)]"
proof -
  have "map (\<lambda>index :: int. (index div 5, index mod 5)) [0 .. 24] =
     [(0, 0), (0, 1), (0, 2), (0, 3), (0, 4),
      (1, 0), (1, 1), (1, 2), (1, 3), (1, 4),
      (2, 0), (2, 1), (2, 2), (2, 3), (2, 4),
      (3, 0), (3, 1), (3, 2), (3, 3), (3, 4),
      (4, 0), (4, 1), (4, 2), (4, 3), (4, 4)]"
    by code_simp
  with GameBoard_targets_in_bounds [of "[]" "[]" False "Some (handleMove ''g1'')" False
      "''g1''" "''u''" "\<lparr>current_turn = None, state = ''waiting''\<rparr>"
      "\<lparr>my_ships = [], opponent_moves = [], my_moves = []\<rparr>"]
  show ?thesis
    by simp
qed

section \<open>Properties of the placement session\<close>

lemma length_SHIPS: "length SHIPS = 3"
  by (simp add: SHIPS_def)

lemma size_spec_SHIPS: "i < 3 \<Longrightarrow> size_spec (SHIPS ! i) = [4, 3, 2] ! i"
  by (auto simp: SHIPS_def less_Suc_eq numeral_3_eq_3)

lemma handleCellClick_full:
  "currentShipIndex s \<ge> length SHIPS \<Longrightarrow> ShipPlacement_handleCellClick s x y = (s, [])"
  by (simp add: ShipPlacement_handleCellClick_def)

lemma handleCellClick_rejected:
  assumes "currentShipIndex s < length SHIPS"
    and "\<not> isValidPlacement (placedShips s)
           (getCellsForShip x y (size_spec (SHIPS ! currentShipIndex s)) (orientation s))"
  shows "ShipPlacement_handleCellClick s x y =
           (s, [Toast_error ''Invalid placement! Ships cannot overlap or go out of bounds.''])"
  using assms by (simp add: ShipPlacement_handleCellClick_def Let_def)

lemma handleCellClick_accepted:
  assumes "currentShipIndex s < length SHIPS"
    and "isValidPlacement (placedShips s)
           (getCellsForShip x y (size_spec (SHIPS ! currentShipIndex s)) (orientation s))"
  shows "fst (ShipPlacement_handleCellClick s x y) =
           s\<lparr>placedShips := placedShips s @
                [\<lparr>cells = getCellsForShip x y (size_spec (SHIPS ! currentShipIndex s))
                            (orientation s),
                  size_ship = size_spec (SHIPS ! currentShipIndex s),
                  name = name_spec (SHIPS ! currentShipIndex s)\<rparr>],
              currentShipIndex := currentShipIndex s + 1,
              hoveredCells := []\<rparr>"
  using assms by (simp add: ShipPlacement_handleCellClick_def Let_def)

lemma placement_inv_initial: "placement_inv initial_placement"
  by (simp add: placement_inv_def initial_placement_def)

lemma placement_inv_append:
  assumes inv: "placement_inv s"
    and idx: "currentShipIndex s < 3"
    and valid: "isValidPlacement (placedShips s) cs"
    and len: "length cs = nat sz"
    and sz: "sz = [4, 3, 2] ! currentShipIndex s"
  shows "placement_inv
           (s\<lparr>placedShips := placedShips s @ [\<lparr>cells = cs, size_ship = sz, name = nm\<rparr>],
               currentShipIndex := currentShipIndex s + 1,
               hoveredCells := []\<rparr>)"
proof -
  let ?ps = "placedShips s"
  let ?new = "\<lparr>cells = cs, size_ship = sz, name = nm\<rparr>"
  from inv have n: "currentShipIndex s = length ?ps"
    by (simp add: placement_inv_def)
  from valid have inb: "\<forall>c \<in> set cs. 0 \<le> fst c \<and> fst c \<le> 4 \<and> 0 \<le> snd c \<and> snd c \<le> 4"
    and disj: "\<forall>ship \<in> set ?ps. set (cells ship) \<inter> set cs = {}"
    by (simp_all add: isValidPlacement_iff)
  have sizes: "size_ship ((?ps @ [?new]) ! i) = [4, 3, 2] ! i \<and>
        length (cells ((?ps @ [?new]) ! i)) = nat (size_ship ((?ps @ [?new]) ! i))"
    if "i < length (?ps @ [?new])" for i
  proof (cases "i < length ?ps")
    case True
    with inv show ?thesis
      by (simp add: placement_inv_def nth_append)
  next
    case False
    with that have "i = length ?ps"
      by simp
    with n len sz show ?thesis
      by (simp add: nth_append)
  qed
  have bounds: "\<forall>ship \<in> set (?ps @ [?new]). \<forall>c \<in> set (cells ship).
        0 \<le> fst c \<and> fst c \<le> 4 \<and> 0 \<le> snd c \<and> snd c \<le> 4"
    using inv inb by (auto simp: placement_inv_def)
  have apart: "set (cells ((?ps @ [?new]) ! i)) \<inter> set (cells ((?ps @ [?new]) ! j)) = {}"
    if ij: "i < length (?ps @ [?new])" "j < length (?ps @ [?new])" "i \<noteq> j" for i j
  proof -
    from ij consider "i < length ?ps" "j < length ?ps"
      | "i < length ?ps" "j = length ?ps"
      | "i = length ?ps" "j < length ?ps"
      by force
    then show ?thesis
    proof cases
      case 1
      with inv ij(3) show ?thesis
        by (simp add: placement_inv_def nth_append)
    next
      case 2
      then have "?ps ! i \<in> set ?ps"
        by simp
      with disj have "set (cells (?ps ! i)) \<inter> set cs = {}"
        by blast
      with 2 show ?thesis
        by (simp add: nth_append)
    next
      case 3
      then have "?ps ! j \<in> set ?ps"
        by simp
      with disj have "set (cells (?ps ! j)) \<inter> set cs = {}"
        by blast
      with 3 show ?thesis
        by (auto simp: nth_append)
    qed
  qed
  from n idx have "length (?ps @ [?new]) \<le> 3"
    by simp
  with n sizes bounds apart show ?thesis
    unfolding placement_inv_def by simp
qed

lemma placement_inv_click:
  assumes "placement_inv s"
  shows "placement_inv (fst (ShipPlacement_handleCellClick s x y))"
proof (cases "currentShipIndex s \<ge> length SHIPS")
  case True
  with assms show ?thesis
    by (simp add: handleCellClick_full)
next
  case False
  then have idx: "currentShipIndex s < 3"
    by (simp add: length_SHIPS)
  let ?cs = "getCellsForShip x y (size_spec (SHIPS ! currentShipIndex s)) (orientation s)"
  show ?thesis
  proof (cases "isValidPlacement (placedShips s) ?cs")
    case True
    from idx have "fst (ShipPlacement_handleCellClick s x y) =
           s\<lparr>placedShips := placedShips s @
                [\<lparr>cells = ?cs, size_ship = size_spec (SHIPS ! currentShipIndex s),
                  name = name_spec (SHIPS ! currentShipIndex s)\<rparr>],
              currentShipIndex := currentShipIndex s + 1,
              hoveredCells := []\<rparr>"
      using True by (simp add: handleCellClick_accepted length_SHIPS)
    moreover have "placement_inv \<dots>"
      using assms idx True
      by (rule placement_inv_append)
         (simp_all add: length_getCellsForShip size_spec_SHIPS [OF idx])
    ultimately show ?thesis
      by simp
  next
    case False
    with idx assms show ?thesis
      by (simp add: handleCellClick_rejected length_SHIPS)
  qed
qed

lemma placement_inv_step: "placement_inv s \<Longrightarrow> placement_inv (placement_step s e)"
proof (cases e)
  case (CellClick x y)
  assume "placement_inv s"
  with CellClick show ?thesis
    by (simp add: placement_inv_click)
qed (simp_all add: placement_inv_def handleCellHover_def mouseLeave_def rotate_def
      handleReset_def Let_def)

lemma placement_inv_foldl:
  "placement_inv s \<Longrightarrow> placement_inv (foldl placement_step s es)"
  by (induction es arbitrary: s) (simp_all add: placement_inv_step)

lemma placement_inv_run: "placement_inv (placement_run es)"
  by (simp add: placement_run_def placement_inv_foldl placement_inv_initial)

text \<open>
  C7: a click whose generated cells fail validation returns the placement state as it was
  (placed ships, current index, orientation, hover state) and raises only the error
  toast; the same click on the state it returns is rejected in the same way, and as an
  event of the session it is a step that changes nothing.
\<close>

theorem invalid_click_changes_nothing:
  assumes "currentShipIndex s < length SHIPS"
    and "\<not> isValidPlacement (placedShips s)
           (getCellsForShip x y (size_spec (SHIPS ! currentShipIndex s)) (orientation s))"
  shows "ShipPlacement_handleCellClick s x y =
           (s, [Toast_error ''Invalid placement! Ships cannot overlap or go out of bounds.'']) \<and>
         ShipPlacement_handleCellClick (fst (ShipPlacement_handleCellClick s x y)) x y =
           ShipPlacement_handleCellClick s x y \<and>
         placement_step s (CellClick x y) = s"
  using assms by (simp add: handleCellClick_rejected)

theorem invalid_click_changes_nothing_witness:
  "ShipPlacement_handleCellClick initial_placement 0 2 =
     (initial_placement,
      [Toast_error ''Invalid placement! Ships cannot overlap or go out of bounds.'']) \<and>
   placement_step initial_placement (CellClick 0 2) = initial_placement"
proof -
  have idx: "currentShipIndex initial_placement < length SHIPS"
    by (simp add: initial_placement_def length_SHIPS)
  have "(0, 5) \<in> set (getCellsForShip 0 2 4 ''horizontal'')"
    by (simp add: getCellsForShip_eq upto_rec1)
  then have "\<not> isValidPlacement [] (getCellsForShip 0 2 4 ''horizontal'')"
    by (force simp: isValidPlacement_iff)
  then have bad: "\<not> isValidPlacement (placedShips initial_placement)
           (getCellsForShip 0 2 (size_spec (SHIPS ! currentShipIndex initial_placement))
              (orientation initial_placement))"
    by (simp add: initial_placement_def SHIPS_def)
  from invalid_click_changes_nothing [OF idx bad] show ?thesis
    by simp
qed

text \<open>
  C8: \<open>handleComplete\<close> calls \<open>onComplete\<close> exactly when three ships are placed, and it
  passes the placed ships.  In every state a placement session reaches, three ships are
  placed exactly when their sizes are 4, 3 and 2 in this order, so every fleet passed to
  \<open>onComplete\<close> has exactly these three ships.
\<close>

theorem handleComplete_fleet_composition:
  "((\<exists>fleet. handleComplete s = Inr fleet) \<longleftrightarrow> length (placedShips s) = 3) \<and>
   (\<forall>fleet. handleComplete s = Inr fleet \<longrightarrow> fleet = placedShips s) \<and>
   ((\<exists>fleet. handleComplete (placement_run es) = Inr fleet) \<longleftrightarrow>
      map size_ship (placedShips (placement_run es)) = [4, 3, 2]) \<and>
   (\<forall>fleet. handleComplete (placement_run es) = Inr fleet \<longrightarrow>
      length fleet = 3 \<and> map size_ship fleet = [4, 3, 2])"
proof -
  have call: "(\<exists>fleet. handleComplete t = Inr fleet) \<longleftrightarrow> length (placedShips t) = 3" for t
    by (simp add: handleComplete_def length_SHIPS)
  have arg: "fleet = placedShips t" if "handleComplete t = Inr fleet" for t fleet
    using that by (simp add: handleComplete_def split: if_splits)
  let ?ps = "placedShips (placement_run es)"
  have sizes: "\<forall>i < length ?ps. size_ship (?ps ! i) = [4, 3, 2] ! i"
    using placement_inv_run [of es] by (simp add: placement_inv_def)
  have three: "length ?ps = 3 \<longleftrightarrow> map size_ship ?ps = [4, 3, 2]"
  proof
    assume len: "length ?ps = 3"
    with sizes show "map size_ship ?ps = [4, 3, 2]"
      by (simp add: list_eq_iff_nth_eq)
  next
    assume "map size_ship ?ps = [4, 3, 2]"
    then have "length (map size_ship ?ps) = 3"
      by simp
    then show "length ?ps = 3"
      by simp
  qed
  from call [of s] arg [of s] call [of "placement_run es"] arg [of "placement_run es"] three
  show ?thesis
    by (metis length_map)
qed

theorem handleComplete_fleet_composition_witness:
  "handleComplete (placement_run [CellClick 0 0, CellClick 2 0, CellClick 4 0]) =
     Inr (placedShips (placement_run [CellClick 0 0, CellClick 2 0, CellClick 4 0])) \<and>
   map size_ship (placedShips (placement_run [CellClick 0 0, CellClick 2 0, CellClick 4 0])) =
     [4, 3, 2] \<and>
   handleComplete (placement_run [CellClick 0 0, CellClick 0 1]) =
     Inl (Toast_error ''Please place all ships before starting'')"
proof -
  let ?es = "[CellClick 0 0, CellClick 2 0, CellClick 4 0]"
  have len: "length (placedShips (placement_run ?es)) = 3"
    by code_simp
  then have 1: "handleComplete (placement_run ?es) = Inr (placedShips (placement_run ?es))"
    by (simp add: handleComplete_def length_SHIPS)
  with handleComplete_fleet_composition [of "placement_run ?es" ?es]
  have 2: "map size_ship (placedShips (placement_run ?es)) = [4, 3, 2]"
    by blast
  have "length (placedShips (placement_run [CellClick 0 0, CellClick 0 1])) = 1"
    by code_simp
  then have 3: "handleComplete (placement_run [CellClick 0 0, CellClick 0 1]) =
     Inl (Toast_error ''Please place all ships before starting'')"
    by (simp add: handleComplete_def length_SHIPS)
  from 1 2 3 show ?thesis
    by (intro conjI)
qed

text \<open>
  C10: after any sequence of events of the placement component (cell clicks and resets,
  and also hovering, leaving a cell and rotating), at most three ships are placed, the
  \<open>i\<close>-th placed ship has the \<open>i\<close>-th of the sizes 4, 3, 2 and that many cells, every cell
  of a placed ship lies on the 5x5 board, two different placed ships share no cell, and
  \<open>currentShipIndex\<close> is the number of placed ships.
\<close>

theorem placement_session_invariant:
  "length (placedShips (placement_run es)) \<le> 3 \<and>
   currentShipIndex (placement_run es) = length (placedShips (placement_run es)) \<and>
   (\<forall>i < length (placedShips (placement_run es)).
      size_ship (placedShips (placement_run es) ! i) = [4, 3, 2] ! i \<and>
      length (cells (placedShips (placement_run es) ! i)) = nat ([4, 3, 2] ! i)) \<and>
   (\<forall>ship \<in> set (placedShips (placement_run es)). \<forall>(x, y) \<in> set (cells ship).
      0 \<le> x \<and> x \<le> 4 \<and> 0 \<le> y \<and> y \<le> 4) \<and>
   (\<forall>i j. i < j \<and> j < length (placedShips (placement_run es)) \<longrightarrow>
      set (cells (placedShips (placement_run es) ! i)) \<inter>
      set (cells (placedShips (placement_run es) ! j)) = {})"
proof -
  let ?ps = "placedShips (placement_run es)"
  note inv = placement_inv_run [of es, unfolded placement_inv_def]
  from inv have "length ?ps \<le> 3" and "currentShipIndex (placement_run es) = length ?ps"
    by simp_all
  moreover from inv have "\<forall>i < length ?ps. size_ship (?ps ! i) = [4, 3, 2] ! i \<and>
      length (cells (?ps ! i)) = nat ([4, 3, 2] ! i)"
    by simp
  moreover from inv have "\<forall>ship \<in> set ?ps. \<forall>(x, y) \<in> set (cells ship).
      0 \<le> x \<and> x \<le> 4 \<and> 0 \<le> y \<and> y \<le> 4"
    by (simp add: case_prod_beta)
  moreover from inv have "\<forall>i j. i < j \<and> j < length ?ps \<longrightarrow>
      set (cells (?ps ! i)) \<inter> set (cells (?ps ! j)) = {}"
    by (metis less_trans nat_neq_iff)
  ultimately show ?thesis
    by (intro conjI)
qed

theorem placement_session_invariant_witness:
  "length (placedShips (placement_run
     [CellClick 0 0, CellClick 0 1, CellHover 2 0, CellClick 2 0, Rotate, CellClick 3 4])) = 3 \<and>
   currentShipIndex (placement_run
     [CellClick 0 0, CellClick 0 1, CellHover 2 0, CellClick 2 0, Rotate, CellClick 3 4]) = 3 \<and>
   size_ship (placedShips (placement_run
     [CellClick 0 0, CellClick 0 1, CellHover 2 0, CellClick 2 0, Rotate, CellClick 3 4]) ! 2) = 2 \<and>
   currentShipIndex (placement_run [CellClick 0 0, CellClick 2 0, Reset, CellClick 1 1]) = 1"
proof -
  let ?es = "[CellClick 0 0, CellClick 0 1, CellHover 2 0, CellClick 2 0, Rotate, CellClick 3 4]"
  let ?fs = "[CellClick 0 0, CellClick 2 0, Reset, CellClick 1 1]"
  have 1: "length (placedShips (placement_run ?es)) = 3"
    by code_simp
  with placement_session_invariant [of ?es]
  have 2: "currentShipIndex (placement_run ?es) = 3"
    by simp
  from 1 placement_session_invariant [of ?es]
  have 3: "size_ship (placedShips (placement_run ?es) ! 2) = 2"
    by simp
  have "length (placedShips (placement_run ?fs)) = 1"
    by code_simp
  with placement_session_invariant [of ?fs]
  have 4: "currentShipIndex (placement_run ?fs) = 1"
    by simp
  from 1 2 3 4 show ?thesis
    by (intro conjI)
qed

end
